theory Spec2Isabelle
  imports Main
begin

unbundle bit_operations_syntax

section \<open>OS Login security keys: the script \<open>compute/oslogin/oslogin-security-keys.py\<close>\<close>

text \<open>
  The script fetches a login profile from the OS Login service, writes the private key of
  each registered security key to a file \<open>google_sk_N\<close> (\<open>N\<close> the entry's index) in a directory,
  makes each file owner read/write only, and prints an \<open>ssh\<close> command naming every file.

  Everything the script does beyond computing strings is an effect on its environment.
  The environment is the record \<open>world\<close> below; each function of the script takes the
  world and returns its result together with the world it leaves behind. An exception
  is the left injection of the result; the world returned with it is the world at the
  moment of the raise, since nothing in the script undoes an effect.
\<close>

subsection \<open>Errors and data\<close>

datatype error =
    TypeError
  | IndexError
  | OSError
  | AuthenticationError
  | NotFoundError
  | TransientNetworkError

text \<open>
  A security key entry and a POSIX account are dictionaries with string values, read
  only through \<open>.get(name)\<close>, which is \<open>None\<close> for a missing name. The profile is a
  dictionary read at the two names \<open>securityKeys\<close> and \<open>posixAccounts\<close>, either of which
  may be missing.
\<close>

type_synonym pydict = "string \<rightharpoonup> string"

record profile =
  securityKeys :: "pydict list option"
  posixAccounts :: "pydict list option"

record regular_file =
  contents :: string
  mode :: int

text \<open>
  The script's calls on files that took effect, in the order the script makes them.
  \<open>Open\<close> is \<open>open(path, 'w')\<close>, \<open>Close\<close> the end of the \<open>with\<close> block.
\<close>

datatype fs_op =
    Open string
  | Write string string
  | Chmod string int
  | Close string

text \<open>
  \<^item> \<open>files\<close>: the regular files, by path, with contents and permission bits;
  \<^item> \<open>open_denied\<close>: the paths at which \<open>open(path, 'w')\<close> raises \<open>OSError\<close> (the
    directory is missing, permission is denied, the path is a directory);
  \<^item> \<open>chmod_denied\<close>: the paths at which \<open>os.chmod\<close> raises \<open>OSError\<close> (the file
    belongs to another user);
  \<^item> \<open>umask\<close>: the process's file mode creation mask;
  \<^item> \<open>home\<close>: what \<open>os.path.expanduser('~')\<close> returns;
  \<^item> \<open>discovery_build\<close>: the exception \<open>googleapiclient.discovery.build\<close> raises, if any;
  \<^item> \<open>getLoginProfile\<close>: the service's answer to \<open>getLoginProfile(name=..., view='SECURITY_KEY').execute()\<close>;
  \<^item> \<open>stdout\<close>: the arguments of the \<open>print\<close> calls so far, one line each;
  \<^item> \<open>fs_log\<close>: the calls on files that took effect so far.

  What the environment denies is a parameter of the run: the script creates no directory
  and takes no permission of the owner away, so the two sets stay as they are.
\<close>

record world =
  files :: "string \<rightharpoonup> regular_file"
  open_denied :: "string set"
  chmod_denied :: "string set"
  umask :: int
  home :: string
  discovery_build :: "error option"
  getLoginProfile :: "string \<Rightarrow> error + profile"
  stdout :: "string list"
  fs_log :: "fs_op list"

subsection \<open>Strings\<close>

text \<open>\<open>str(x)\<close> for \<open>x\<close> a string or \<open>None\<close>, as \<open>str.format\<close> and \<open>%s\<close> apply it.\<close>

fun py_str :: "string option \<Rightarrow> string" where
  "py_str None = ''None''"
| "py_str (Some s) = s"

text \<open>\<open>sep.join(xs)\<close>.\<close>

fun join :: "string \<Rightarrow> string list \<Rightarrow> string" where
  "join sep [] = []"
| "join sep [x] = x"
| "join sep (x # y # ys) = x @ sep @ join sep (y # ys)"

text \<open>\<open>str(n)\<close> for a non-negative integer: its decimal digits, most significant first.\<close>

definition digit_char :: "nat \<Rightarrow> char" where
  "digit_char d = ''0123456789'' ! d"

fun str_nat :: "nat \<Rightarrow> string" where
  "str_nat n = (if n < 10 then [digit_char n] else str_nat (n div 10) @ [digit_char (n mod 10)])"

declare str_nat.simps [simp del]

text \<open>
  \<open>os.path.join(a, b)\<close> of \<open>posixpath\<close>, for two components: an absolute \<open>b\<close> replaces
  \<open>a\<close>; an empty \<open>a\<close>, or one that ends with the separator, takes \<open>b\<close> as it is; otherwise
  the separator goes between.
\<close>

definition path_join :: "string \<Rightarrow> string \<Rightarrow> string" where
  "path_join a b =
     (if b \<noteq> [] \<and> hd b = CHR ''/'' then b
      else if a = [] \<or> last a = CHR ''/'' then a @ b
      else a @ ''/'' @ b)"

subsection \<open>File operations\<close>

text \<open>
  \<open>open(path, 'w')\<close>: raises where the environment denies it; otherwise an existing file
  is truncated and keeps its permission bits, and a new file is created empty with the
  bits \<open>0o666\<close> less the umask.
\<close>

definition py_open :: "world \<Rightarrow> string \<Rightarrow> (error + unit) \<times> world" where
  "py_open w path =
     (if path \<in> open_denied w then (Inl OSError, w)
      else (Inr (),
            w\<lparr>files := (files w)(path \<mapsto>
                 \<lparr>contents = [],
                  mode = (case files w path of
                            None \<Rightarrow> 438 AND NOT (umask w)
                          | Some f \<Rightarrow> mode f)\<rparr>),
              fs_log := fs_log w @ [Open path]\<rparr>))"

text \<open>
  \<open>f.write(data)\<close> on the file opened at \<open>path\<close>: \<open>None\<close> is not a string and raises
  \<open>TypeError\<close> before anything is written. The text is buffered and reaches the file when
  the \<open>with\<close> block is left, on every way out of the block; the model appends it at once.
\<close>

definition py_write :: "world \<Rightarrow> string \<Rightarrow> string option \<Rightarrow> (error + unit) \<times> world" where
  "py_write w path data =
     (case data of
        None \<Rightarrow> (Inl TypeError, w)
      | Some s \<Rightarrow>
          (Inr (),
           w\<lparr>files := (files w)(path :=
                map_option (\<lambda>f. f\<lparr>contents := contents f @ s\<rparr>) (files w path)),
             fs_log := fs_log w @ [Write path s]\<rparr>))"

text \<open>\<open>os.chmod(path, m)\<close>: raises for a missing file and where the environment denies it.\<close>

definition os_chmod :: "world \<Rightarrow> string \<Rightarrow> int \<Rightarrow> (error + unit) \<times> world" where
  "os_chmod w path m =
     (case files w path of
        None \<Rightarrow> (Inl OSError, w)
      | Some f \<Rightarrow>
          if path \<in> chmod_denied w then (Inl OSError, w)
          else (Inr (),
                w\<lparr>files := (files w)(path \<mapsto> f\<lparr>mode := m\<rparr>),
                  fs_log := fs_log w @ [Chmod path m]\<rparr>))"

text \<open>Leaving the \<open>with\<close> block closes the file.\<close>

definition py_close :: "world \<Rightarrow> string \<Rightarrow> world" where
  "py_close w path = w\<lparr>fs_log := fs_log w @ [Close path]\<rparr>"

subsection \<open>The key file writer\<close>

text \<open>
  \<^verbatim>\<open>
  def write_ssh_key_files(security_keys, directory):
    key_files = []
    for index, key in enumerate(security_keys):
      key_file = os.path.join(directory, 'google_sk_%s' % index)
      with open(key_file, 'w') as f:
        f.write(key.get('privateKey'))
        os.chmod(key_file, 0o600)
        key_files.append(key_file)
    return key_files
  \<close>
  \<open>with_open\<close> is the \<open>with\<close> statement of one iteration: the file is closed on every
  way out of the block, and an exception of the block goes on to the caller.
  \<open>write_loop\<close> is the \<open>for\<close> loop, with \<open>index\<close> the counter of \<open>enumerate\<close> and
  \<open>key_files\<close> the list built so far. \<open>0o600\<close> is 384.
\<close>

definition with_open :: "world \<Rightarrow> string \<Rightarrow> pydict \<Rightarrow> string list \<Rightarrow> (error + string list) \<times> world" where
  "with_open w key_file key key_files =
     (case py_open w key_file of
        (Inl e, w1) \<Rightarrow> (Inl e, w1)
      | (Inr _, w1) \<Rightarrow>
          (case py_write w1 key_file (key ''privateKey'') of
             (Inl e, w2) \<Rightarrow> (Inl e, py_close w2 key_file)
           | (Inr _, w2) \<Rightarrow>
               (case os_chmod w2 key_file 384 of
                  (Inl e, w3) \<Rightarrow> (Inl e, py_close w3 key_file)
                | (Inr _, w3) \<Rightarrow> (Inr (key_files @ [key_file]), py_close w3 key_file))))"

fun write_loop :: "world \<Rightarrow> string \<Rightarrow> nat \<Rightarrow> pydict list \<Rightarrow> string list \<Rightarrow> (error + string list) \<times> world" where
  "write_loop w directory index [] key_files = (Inr key_files, w)"
| "write_loop w directory index (key # keys) key_files =
     (case with_open w (path_join directory (''google_sk_'' @ str_nat index)) key key_files of
        (Inl e, w1) \<Rightarrow> (Inl e, w1)
      | (Inr key_files1, w1) \<Rightarrow> write_loop w1 directory (Suc index) keys key_files1)"

text \<open>\<open>enumerate(None)\<close> raises \<open>TypeError\<close>.\<close>

definition write_ssh_key_files :: "world \<Rightarrow> pydict list option \<Rightarrow> string \<Rightarrow> (error + string list) \<times> world" where
  "write_ssh_key_files w security_keys directory =
     (case security_keys of
        None \<Rightarrow> (Inl TypeError, w)
      | Some keys \<Rightarrow> write_loop w directory 0 keys [])"

subsection \<open>The command formatter\<close>

text \<open>
  \<^verbatim>\<open>
  def ssh_command(key_files, username, ip_address):
    parameters = ' '.join(['-i ' + f for f in key_files])
    print(TEMPLATE.format(
        parameters=parameters, username=username, ip_address=ip_address))
  \<close>
  \<open>TEMPLATE\<close> stands for the source's string literal: \<open>ssh\<close>, a space, the field
  \<open>{parameters}\<close>, a space, the field \<open>{username}\<close>, an at sign and the field
  \<open>{ip_address}\<close>.
  \<open>username\<close> comes from \<open>.get('username')\<close> and \<open>ip_address\<close> from an optional command
  line argument, so either may be \<open>None\<close>, which \<open>format\<close> renders as \<open>None\<close>.
\<close>

definition ssh_command :: "world \<Rightarrow> string list \<Rightarrow> string option \<Rightarrow> string option \<Rightarrow> world" where
  "ssh_command w key_files username ip_address =
     (let parameters = join '' '' (map (\<lambda>f. ''-i '' @ f) key_files)
      in w\<lparr>stdout := stdout w @
           [''ssh '' @ parameters @ '' '' @ py_str username @ ''@'' @ py_str ip_address]\<rparr>)"

subsection \<open>The program\<close>

text \<open>
  \<^verbatim>\<open>
  def main(user_key, ip_address, directory=None):
    directory = directory or os.path.join(os.path.expanduser('~'), '.ssh')
    oslogin = googleapiclient.discovery.build('oslogin', 'v1beta')
    profile = oslogin.users().getLoginProfile(
        name='users/{}'.format(user_key), view='SECURITY_KEY').execute()
    security_keys = profile.get('securityKeys')
    username = profile.get('posixAccounts')[0].get('username')
    key_files = write_ssh_key_files(security_keys, directory)
    ssh_command(key_files, username, ip_address)
  \<close>
  The three arguments come from optional command line arguments, so each is a string or
  \<open>None\<close>. \<open>directory or ...\<close> takes the default for \<open>None\<close> and for the empty string.
  Indexing \<open>None\<close> raises \<open>TypeError\<close>, indexing the empty list \<open>IndexError\<close>.
\<close>

definition main :: "world \<Rightarrow> string option \<Rightarrow> string option \<Rightarrow> string option \<Rightarrow> (error + unit) \<times> world" where
  "main w user_key ip_address directory =
     (let directory1 =
            (case directory of
               None \<Rightarrow> path_join (home w) ''.ssh''
             | Some d \<Rightarrow> if d = [] then path_join (home w) ''.ssh'' else d)
      in case discovery_build w of
           Some e \<Rightarrow> (Inl e, w)
         | None \<Rightarrow>
             (case getLoginProfile w (''users/'' @ py_str user_key) of
                Inl e \<Rightarrow> (Inl e, w)
              | Inr profile \<Rightarrow>
                  (let security_keys = securityKeys profile
                   in case posixAccounts profile of
                        None \<Rightarrow> (Inl TypeError, w)
                      | Some [] \<Rightarrow> (Inl IndexError, w)
                      | Some (account # _) \<Rightarrow>
                          (let username = account ''username''
                           in case write_ssh_key_files w security_keys directory1 of
                                (Inl e, w1) \<Rightarrow> (Inl e, w1)
                              | (Inr key_files, w1) \<Rightarrow>
                                  (Inr (), ssh_command w1 key_files username ip_address)))))"

subsection \<open>Names used in the statements\<close>

text \<open>
  The path the loop computes for the entry at \<open>index\<close>: the expression
  \<open>os.path.join(directory, 'google_sk_%s' % index)\<close> of \<open>write_ssh_key_files\<close>.
\<close>

definition key_file_at :: "string \<Rightarrow> nat \<Rightarrow> string" where
  "key_file_at directory index = path_join directory (''google_sk_'' @ str_nat index)"

text \<open>The file operations of one successful iteration, in the order the loop body issues them.\<close>

definition key_ops :: "string \<Rightarrow> string \<Rightarrow> fs_op list" where
  "key_ops path s = [Open path, Write path s, Chmod path 384, Close path]"

text \<open>
  Example data: a security key entry and a POSIX account with the one field the script
  reads, a machine with an empty file system where no operation is denied and the
  service knows no user, and the same machine with a service that answers every request
  with the profile \<open>p\<close>.
\<close>

definition key_entry :: "string \<Rightarrow> pydict" where [simp]:
  "key_entry s = Map.empty(''privateKey'' \<mapsto> s)"

definition posix_account :: "string \<Rightarrow> pydict" where [simp]:
  "posix_account u = Map.empty(''username'' \<mapsto> u)"

definition fresh_world :: world where
  "fresh_world =
     \<lparr>files = Map.empty, open_denied = {}, chmod_denied = {}, umask = 18,
      home = ''/home/u'', discovery_build = None,
      getLoginProfile = (\<lambda>name. Inl NotFoundError), stdout = [], fs_log = []\<rparr>"

definition serving :: "profile \<Rightarrow> world" where
  "serving p = fresh_world\<lparr>getLoginProfile := (\<lambda>name. Inr p)\<rparr>"

section \<open>Properties\<close>

subsection \<open>File names\<close>

text \<open>
  Decimal numerals of different numbers differ, so the loop never uses a file name twice.
\<close>

lemma digit_char_inj: "a < 10 \<Longrightarrow> b < 10 \<Longrightarrow> digit_char a = digit_char b \<Longrightarrow> a = b"
proof -
  assume a: "a < 10" and b: "b < 10" and eq: "digit_char a = digit_char b"
  have "distinct ''0123456789''" by simp
  with a b eq show "a = b"
    using nth_eq_iff_index_eq [of "''0123456789''" a b] by (simp add: digit_char_def)
qed

lemma str_nat_ne: "str_nat n \<noteq> []"
  by (subst str_nat.simps) simp

lemma str_nat_inj: "str_nat m = str_nat n \<Longrightarrow> m = n"
proof (induction m arbitrary: n rule: str_nat.induct)
  case (1 m)
  show ?case
  proof (cases "m < 10")
    case True
    show ?thesis
    proof (cases "n < 10")
      case True
      with \<open>m < 10\<close> 1(2) show ?thesis
        by (simp add: str_nat.simps[of m] str_nat.simps[of n] digit_char_inj)
    next
      case False
      with \<open>m < 10\<close> 1(2) show ?thesis
        using str_nat_ne[of "n div 10"]
        by (simp add: str_nat.simps[of m] str_nat.simps[of n])
    qed
  next
    case False
    note mbig = this
    show ?thesis
    proof (cases "n < 10")
      case True
      with mbig 1(2) show ?thesis
        using str_nat_ne[of "m div 10"]
        by (simp add: str_nat.simps[of m] str_nat.simps[of n])
    next
      case False
      with mbig 1(2) have eq: "str_nat (m div 10) = str_nat (n div 10)" 
        and d: "digit_char (m mod 10) = digit_char (n mod 10)"
        by (simp_all add: str_nat.simps[of m] str_nat.simps[of n])
      from 1(1)[OF mbig eq] have "m div 10 = n div 10" .
      moreover from d have "m mod 10 = n mod 10" by (simp add: digit_char_inj)
      ultimately show ?thesis by (metis div_mult_mod_eq)
    qed
  qed
qed

lemma key_file_at_eq:
  "key_file_at d i = (if d = [] \<or> last d = CHR ''/'' then d else d @ ''/'') @ ''google_sk_'' @ str_nat i"
  by (simp add: key_file_at_def path_join_def)

lemma key_file_at_inj [simp]: "key_file_at d i = key_file_at d j \<longleftrightarrow> i = j"
proof
  assume "key_file_at d i = key_file_at d j"
  then have "str_nat i = str_nat j"
    unfolding key_file_at_eq by simp
  then show "i = j" by (rule str_nat_inj)
qed simp

subsection \<open>One iteration\<close>

lemma write_loop_Cons [simp]:
  "write_loop w directory index (key # keys) key_files =
     (case with_open w (key_file_at directory index) key key_files of
        (Inl e, w1) \<Rightarrow> (Inl e, w1)
      | (Inr key_files1, w1) \<Rightarrow> write_loop w1 directory (Suc index) keys key_files1)"
  by (simp add: key_file_at_def)

declare write_loop.simps(2) [simp del]

lemma with_open_ok:
  assumes "path \<notin> open_denied w" "path \<notin> chmod_denied w" "key ''privateKey'' = Some s"
  shows "with_open w path key kf =
     (Inr (kf @ [path]),
      w\<lparr>files := (files w)(path \<mapsto> \<lparr>contents = s, mode = 384\<rparr>),
        fs_log := fs_log w @ [Open path, Write path s, Chmod path 384, Close path]\<rparr>)"
  using assms
  by (simp add: with_open_def py_open_def py_write_def os_chmod_def py_close_def)

lemma with_open_Inr:
  assumes "fst (with_open w path key kf) = Inr r"
  shows "path \<notin> open_denied w \<and> path \<notin> chmod_denied w \<and> key ''privateKey'' \<noteq> None"
  using assms
  by (auto simp: with_open_def py_open_def py_write_def os_chmod_def py_close_def
      split: if_splits option.splits)

lemma with_open_fail:
  assumes "path \<in> open_denied w \<or> key ''privateKey'' = None \<or> path \<in> chmod_denied w"
  shows "fst (with_open w path key kf) =
     Inl (if path \<in> open_denied w then OSError
          else if key ''privateKey'' = None then TypeError else OSError)"
  using assms
  by (auto simp: with_open_def py_open_def py_write_def os_chmod_def py_close_def
      split: option.splits)

lemma with_open_frame:
  "snd (with_open w path key kf)\<lparr>files := files w, fs_log := fs_log w\<rparr> = w"
  by (auto simp: with_open_def py_open_def py_write_def os_chmod_def py_close_def
      split: if_splits option.splits)

lemma with_open_other:
  "p \<noteq> path \<Longrightarrow> files (snd (with_open w path key kf)) p = files w p"
  by (auto simp: with_open_def py_open_def py_write_def os_chmod_def py_close_def
      split: if_splits option.splits)

lemma with_open_service:
  "with_open (w\<lparr>getLoginProfile := g\<rparr>) path key kf =
     (fst (with_open w path key kf), snd (with_open w path key kf)\<lparr>getLoginProfile := g\<rparr>)"
  by (auto simp: with_open_def py_open_def py_write_def os_chmod_def py_close_def
      split: option.splits)

subsection \<open>The loop\<close>

text \<open>
  A world that differs from \<open>w\<close> in its files and its log only agrees with \<open>w\<close> on
  every other field.
\<close>

lemma frame_fields:
  assumes "w'\<lparr>files := files w, fs_log := fs_log w\<rparr> = w"
  shows "open_denied w' = open_denied w" "chmod_denied w' = chmod_denied w"
    "stdout w' = stdout w" "umask w' = umask w" "home w' = home w"
    "discovery_build w' = discovery_build w" "getLoginProfile w' = getLoginProfile w"
  using arg_cong [OF assms, of open_denied] arg_cong [OF assms, of chmod_denied]
    arg_cong [OF assms, of stdout] arg_cong [OF assms, of umask] arg_cong [OF assms, of home]
    arg_cong [OF assms, of discovery_build] arg_cong [OF assms, of getLoginProfile]
  by simp_all

lemma write_loop_append:
  "write_loop w d i (xs @ ys) kf =
     (case write_loop w d i xs kf of
        (Inl e, w1) \<Rightarrow> (Inl e, w1)
      | (Inr kf1, w1) \<Rightarrow> write_loop w1 d (i + length xs) ys kf1)"
  by (induction xs arbitrary: w i kf) (auto split: prod.splits sum.splits)

lemma write_loop_frame:
  "snd (write_loop w d i keys kf)\<lparr>files := files w, fs_log := fs_log w\<rparr> = w"
proof (induction keys arbitrary: w i kf)
  case Nil
  show ?case by simp
next
  case (Cons k ks)
  show ?case
  proof (cases "with_open w (key_file_at d i) k kf")
    case (Pair r w1)
    have fr: "w1\<lparr>files := files w, fs_log := fs_log w\<rparr> = w"
      using with_open_frame [of w "key_file_at d i" k kf] Pair by simp
    show ?thesis
    proof (cases r)
      case (Inl e)
      with Pair fr show ?thesis by simp
    next
      case (Inr kf1)
      have "snd (write_loop w1 d (Suc i) ks kf1)\<lparr>files := files w1, fs_log := fs_log w1\<rparr> = w1"
        by (rule Cons.IH)
      then have "(snd (write_loop w1 d (Suc i) ks kf1)\<lparr>files := files w1, fs_log := fs_log w1\<rparr>)
            \<lparr>files := files w, fs_log := fs_log w\<rparr>
          = w1\<lparr>files := files w, fs_log := fs_log w\<rparr>"
        by (rule arg_cong)
      then have "snd (write_loop w1 d (Suc i) ks kf1)\<lparr>files := files w, fs_log := fs_log w\<rparr>
          = w1\<lparr>files := files w, fs_log := fs_log w\<rparr>"
        by simp
      with Pair Inr fr show ?thesis by simp
    qed
  qed
qed

lemma write_loop_other:
  "(\<And>j. j < length keys \<Longrightarrow> p \<noteq> key_file_at d (i + j)) \<Longrightarrow>
   files (snd (write_loop w d i keys kf)) p = files w p"
proof (induction keys arbitrary: w i kf)
  case Nil
  show ?case by simp
next
  case (Cons k ks)
  have p0: "p \<noteq> key_file_at d i" using Cons.prems [of 0] by simp
  have ps: "\<And>j. j < length ks \<Longrightarrow> p \<noteq> key_file_at d (Suc i + j)"
    using Cons.prems [of "Suc j" for j] by simp
  show ?case
  proof (cases "with_open w (key_file_at d i) k kf")
    case (Pair r w1)
    have f1: "files w1 p = files w p"
      using with_open_other [OF p0, of w k kf] Pair by simp
    show ?thesis
    proof (cases r)
      case (Inl e)
      with Pair f1 show ?thesis by simp
    next
      case (Inr kf1)
      with Pair f1 Cons.IH [of "Suc i" w1 kf1, OF ps] show ?thesis by simp
    qed
  qed
qed

lemma write_loop_service:
  "write_loop (w\<lparr>getLoginProfile := g\<rparr>) d i keys kf =
     (fst (write_loop w d i keys kf), snd (write_loop w d i keys kf)\<lparr>getLoginProfile := g\<rparr>)"
proof (induction keys arbitrary: w i kf)
  case Nil
  show ?case by simp
next
  case (Cons k ks)
  show ?case
    by (cases "with_open w (key_file_at d i) k kf")
       (auto simp: with_open_service Cons.IH split: sum.splits)
qed

text \<open>
  When every entry carries a private key and no operation is denied, the loop runs to
  its end; and it runs to its end in no other case.
\<close>

lemma write_loop_ok:
  assumes "map (\<lambda>k. k ''privateKey'') keys = map Some pks"
    and "\<And>j. j < length keys \<Longrightarrow> key_file_at d (i + j) \<notin> open_denied w"
    and "\<And>j. j < length keys \<Longrightarrow> key_file_at d (i + j) \<notin> chmod_denied w"
  shows "\<exists>w'. write_loop w d i keys kf = (Inr (kf @ map (key_file_at d) [i..<i + length keys]), w')
      \<and> (\<forall>j<length keys. files w' (key_file_at d (i + j)) = Some \<lparr>contents = pks ! j, mode = 384\<rparr>)
      \<and> fs_log w' = fs_log w @ concat (map (\<lambda>(j, s). key_ops (key_file_at d j) s) (enumerate i pks))"
  using assms
proof (induction keys arbitrary: w i kf pks)
  case Nil
  then show ?case by simp
next
  case (Cons k ks)
  from Cons.prems(1) obtain s ss where pks: "pks = s # ss" and s: "k ''privateKey'' = Some s"
    and ss: "map (\<lambda>k. k ''privateKey'') ks = map Some ss"
    by (cases pks) auto
  let ?p = "key_file_at d i"
  let ?w1 = "w\<lparr>files := (files w)(?p \<mapsto> \<lparr>contents = s, mode = 384\<rparr>),
        fs_log := fs_log w @ [Open ?p, Write ?p s, Chmod ?p 384, Close ?p]\<rparr>"
  have o: "?p \<notin> open_denied w" and c: "?p \<notin> chmod_denied w"
    using Cons.prems(2) [of 0] Cons.prems(3) [of 0] by simp_all
  have step: "with_open w ?p k kf = (Inr (kf @ [?p]), ?w1)"
    using o c s by (rule with_open_ok)
  have o1: "\<And>j. j < length ks \<Longrightarrow> key_file_at d (Suc i + j) \<notin> open_denied ?w1"
    using Cons.prems(2) [of "Suc j" for j] by simp
  have c1: "\<And>j. j < length ks \<Longrightarrow> key_file_at d (Suc i + j) \<notin> chmod_denied ?w1"
    using Cons.prems(3) [of "Suc j" for j] by simp
  from Cons.IH [OF ss o1 c1, of "kf @ [?p]"] obtain w' where
    r: "write_loop ?w1 d (Suc i) ks (kf @ [?p]) =
          (Inr ((kf @ [?p]) @ map (key_file_at d) [Suc i..<Suc i + length ks]), w')"
    and f: "\<forall>j<length ks. files w' (key_file_at d (Suc i + j)) = Some \<lparr>contents = ss ! j, mode = 384\<rparr>"
    and l: "fs_log w' = fs_log ?w1 @ concat (map (\<lambda>(j, s). key_ops (key_file_at d j) s) (enumerate (Suc i) ss))"
    by blast
  have first: "files w' ?p = Some \<lparr>contents = s, mode = 384\<rparr>"
  proof -
    have "files (snd (write_loop ?w1 d (Suc i) ks (kf @ [?p]))) ?p = files ?w1 ?p"
      by (rule write_loop_other) simp
    with r show ?thesis by simp
  qed
  have "write_loop w d i (k # ks) kf = (Inr (kf @ map (key_file_at d) [i..<i + length (k # ks)]), w')"
  proof -
    have u: "[i..<i + length (k # ks)] = i # [Suc i..<Suc i + length ks]"
      by (simp del: upt_Suc add: upt_conv_Cons)
    show ?thesis unfolding u using step r by (simp del: upt_Suc)
  qed
  moreover have "\<forall>j<length (k # ks). files w' (key_file_at d (i + j)) = Some \<lparr>contents = pks ! j, mode = 384\<rparr>"
  proof (intro allI impI)
    fix j assume "j < length (k # ks)"
    then show "files w' (key_file_at d (i + j)) = Some \<lparr>contents = pks ! j, mode = 384\<rparr>"
      using first f pks by (cases j) simp_all
  qed
  moreover have "fs_log w' = fs_log w @ concat (map (\<lambda>(j, s). key_ops (key_file_at d j) s) (enumerate i pks))"
    using l pks by (simp add: key_ops_def)
  ultimately show ?case by blast
qed

lemma write_loop_Inr:
  assumes "fst (write_loop w d i keys kf) = Inr r"
  shows "\<exists>pks. map (\<lambda>k. k ''privateKey'') keys = map Some pks
      \<and> (\<forall>j<length keys. key_file_at d (i + j) \<notin> open_denied w \<and> key_file_at d (i + j) \<notin> chmod_denied w)"
  using assms
proof (induction keys arbitrary: w i kf)
  case Nil
  show ?case by simp
next
  case (Cons k ks)
  obtain r1 w1 where wo: "with_open w (key_file_at d i) k kf = (r1, w1)"
    by (cases "with_open w (key_file_at d i) k kf")
  with Cons.prems obtain kf1 where r1: "r1 = Inr kf1"
    by (cases r1) auto
  from wo r1 have ok: "key_file_at d i \<notin> open_denied w \<and> key_file_at d i \<notin> chmod_denied w
      \<and> k ''privateKey'' \<noteq> None"
    using with_open_Inr [of w "key_file_at d i" k kf kf1] by simp
  then obtain s where s: "k ''privateKey'' = Some s" by auto
  have fr: "w1\<lparr>files := files w, fs_log := fs_log w\<rparr> = w"
    using with_open_frame [of w "key_file_at d i" k kf] wo by simp
  have od: "open_denied w1 = open_denied w" and cd: "chmod_denied w1 = chmod_denied w"
    using arg_cong [OF fr, of open_denied] arg_cong [OF fr, of chmod_denied] by simp_all
  from Cons.prems wo r1 have "fst (write_loop w1 d (Suc i) ks kf1) = Inr r" by simp
  from Cons.IH [OF this] obtain ss where ss: "map (\<lambda>k. k ''privateKey'') ks = map Some ss"
    and rest: "\<forall>j<length ks. key_file_at d (Suc i + j) \<notin> open_denied w1 \<and> key_file_at d (Suc i + j) \<notin> chmod_denied w1"
    by blast
  have "map (\<lambda>k. k ''privateKey'') (k # ks) = map Some (s # ss)"
    using s ss by simp
  moreover have "\<forall>j<length (k # ks). key_file_at d (i + j) \<notin> open_denied w \<and> key_file_at d (i + j) \<notin> chmod_denied w"
  proof (intro allI impI)
    fix j assume "j < length (k # ks)"
    then show "key_file_at d (i + j) \<notin> open_denied w \<and> key_file_at d (i + j) \<notin> chmod_denied w"
      using ok rest od cd by (cases j) simp_all
  qed
  ultimately show ?case by blast
qed

lemma write_ssh_key_files_service:
  "write_ssh_key_files (w\<lparr>getLoginProfile := g\<rparr>) keys d =
     (fst (write_ssh_key_files w keys d), snd (write_ssh_key_files w keys d)\<lparr>getLoginProfile := g\<rparr>)"
  by (simp add: write_ssh_key_files_def write_loop_service split: option.splits)

lemma write_ssh_key_files_frame:
  "snd (write_ssh_key_files w keys d)\<lparr>files := files w, fs_log := fs_log w\<rparr> = w"
  by (simp add: write_ssh_key_files_def write_loop_frame split: option.splits)

lemmas eval_defs = key_file_at_def path_join_def str_nat.simps digit_char_def fresh_world_def key_ops_def

lemmas run_defs = write_ssh_key_files_def with_open_def py_open_def py_write_def
  os_chmod_def py_close_def

subsection \<open>The key file writer\<close>

text \<open>
  Claim C1. For \<open>N \<ge> 1\<close> entries, each with a private-key string, and a directory in
  which every file of the run can be opened for writing and have its mode changed,
  \<open>write_ssh_key_files\<close> returns the \<open>N\<close> paths \<open>google_sk_0\<close> to \<open>google_sk_(N-1)\<close> of the
  directory, in the order of the entries. The paths are pairwise different; the file at
  the \<open>i\<close>-th path holds exactly the \<open>i\<close>-th private key and has mode \<open>0o600\<close>; no other
  file is touched; the operations on each file are open, write, chmod \<open>0o600\<close>, close, in
  this order and file after file; nothing else in the world changes. For a directory
  that is not empty and does not end with a slash, the \<open>i\<close>-th path is literally the
  directory, \<open>/google_sk_\<close> and the decimal numeral of \<open>i\<close>.
\<close>

theorem write_ssh_key_files_creates_key_files:
  assumes "keys \<noteq> []"
    and "map (\<lambda>key. key ''privateKey'') keys = map Some pks"
    and "\<forall>i<length keys. key_file_at directory i \<notin> open_denied w
           \<and> key_file_at directory i \<notin> chmod_denied w"
  shows "\<exists>w'. write_ssh_key_files w (Some keys) directory
             = (Inr (map (key_file_at directory) [0..<length keys]), w')
      \<and> distinct (map (key_file_at directory) [0..<length keys])
      \<and> (\<forall>i<length keys. files w' (key_file_at directory i)
             = Some \<lparr>contents = pks ! i, mode = 384\<rparr>)
      \<and> (\<forall>p. p \<notin> key_file_at directory ` {0..<length keys} \<longrightarrow> files w' p = files w p)
      \<and> fs_log w' = fs_log w @ concat (map (\<lambda>(i, s). key_ops (key_file_at directory i) s) (enumerate 0 pks))
      \<and> w'\<lparr>files := files w, fs_log := fs_log w\<rparr> = w
      \<and> (directory \<noteq> [] \<and> last directory \<noteq> CHR ''/'' \<longrightarrow>
           (\<forall>i. key_file_at directory i = directory @ ''/google_sk_'' @ str_nat i))"
proof -
  from write_loop_ok [of keys pks directory 0 w "[]"] assms(2,3)
  obtain w' where r: "write_loop w directory 0 keys [] = (Inr (map (key_file_at directory) [0..<length keys]), w')"
    and f: "\<forall>i<length keys. files w' (key_file_at directory i) = Some \<lparr>contents = pks ! i, mode = 384\<rparr>"
    and l: "fs_log w' = fs_log w @ concat (map (\<lambda>(i, s). key_ops (key_file_at directory i) s) (enumerate 0 pks))"
    by auto
  have d: "distinct (map (key_file_at directory) [0..<length keys])"
    by (simp add: distinct_map inj_on_def)
  have o: "\<forall>p. p \<notin> key_file_at directory ` {0..<length keys} \<longrightarrow> files w' p = files w p"
  proof (intro allI impI)
    fix p assume "p \<notin> key_file_at directory ` {0..<length keys}"
    then have "\<And>j. j < length keys \<Longrightarrow> p \<noteq> key_file_at directory (0 + j)" by auto
    from write_loop_other [of keys p directory 0 w "[]", OF this] r
    show "files w' p = files w p" by simp
  qed
  have fr: "w'\<lparr>files := files w, fs_log := fs_log w\<rparr> = w"
    using write_loop_frame [of w directory 0 keys "[]"] r by simp
  have lit: "directory \<noteq> [] \<and> last directory \<noteq> CHR ''/'' \<longrightarrow>
           (\<forall>i. key_file_at directory i = directory @ ''/google_sk_'' @ str_nat i)"
    by (simp add: key_file_at_eq)
  from r d f o l fr lit show ?thesis
    by (simp add: write_ssh_key_files_def)
qed

theorem write_ssh_key_files_creates_key_files_witness:
  "\<exists>w'. write_ssh_key_files fresh_world
          (Some [key_entry ''AAA'', (key_entry ''BBB'')(''publicKey'' \<mapsto> ''CCC'')]) ''/d''
        = (Inr [''/d/google_sk_0'', ''/d/google_sk_1''], w')
     \<and> files w' ''/d/google_sk_0'' = Some \<lparr>contents = ''AAA'', mode = 384\<rparr>
     \<and> files w' ''/d/google_sk_1'' = Some \<lparr>contents = ''BBB'', mode = 384\<rparr>
     \<and> files w' ''/d/google_sk_2'' = None
     \<and> fs_log w' =
          [Open ''/d/google_sk_0'', Write ''/d/google_sk_0'' ''AAA'',
           Chmod ''/d/google_sk_0'' 384, Close ''/d/google_sk_0'',
           Open ''/d/google_sk_1'', Write ''/d/google_sk_1'' ''BBB'',
           Chmod ''/d/google_sk_1'' 384, Close ''/d/google_sk_1'']"
proof -
  let ?keys = "[key_entry ''AAA'', (key_entry ''BBB'')(''publicKey'' \<mapsto> ''CCC'')]"
  have h1: "?keys \<noteq> []" by simp
  have h2: "map (\<lambda>key. key ''privateKey'') ?keys = map Some [''AAA'', ''BBB'']" by simp
  have h3: "\<forall>i<length ?keys. key_file_at ''/d'' i \<notin> open_denied fresh_world
           \<and> key_file_at ''/d'' i \<notin> chmod_denied fresh_world"
    by (simp add: fresh_world_def)
  from write_ssh_key_files_creates_key_files [OF h1 h2 h3]
  obtain w' where r: "write_ssh_key_files fresh_world (Some ?keys) ''/d''
             = (Inr (map (key_file_at ''/d'') [0..<length ?keys]), w')"
    and f: "\<forall>i<length ?keys. files w' (key_file_at ''/d'' i)
             = Some \<lparr>contents = [''AAA'', ''BBB''] ! i, mode = 384\<rparr>"
    and o: "\<forall>p. p \<notin> key_file_at ''/d'' ` {0..<length ?keys} \<longrightarrow> files w' p = files fresh_world p"
    and l: "fs_log w' = fs_log fresh_world @
           concat (map (\<lambda>(i, s). key_ops (key_file_at ''/d'' i) s) (enumerate 0 [''AAA'', ''BBB'']))"
    by blast
  have p0: "key_file_at ''/d'' 0 = ''/d/google_sk_0''" by (simp add: eval_defs)
  have p1: "key_file_at ''/d'' 1 = ''/d/google_sk_1''" by (simp add: eval_defs)
  have a: "write_ssh_key_files fresh_world (Some ?keys) ''/d''
        = (Inr [''/d/google_sk_0'', ''/d/google_sk_1''], w')"
    using r p0 p1 by (simp add: upt_rec)
  have b: "files w' ''/d/google_sk_0'' = Some \<lparr>contents = ''AAA'', mode = 384\<rparr>"
    using f [rule_format, of 0] p0 by simp
  have c: "files w' ''/d/google_sk_1'' = Some \<lparr>contents = ''BBB'', mode = 384\<rparr>"
    using f [rule_format, of 1] p1 by simp
  have "''/d/google_sk_2'' \<notin> key_file_at ''/d'' ` {0..<length ?keys}"
    using p0 p1 by (simp add: atLeast0_lessThan_Suc)
  with o have d: "files w' ''/d/google_sk_2'' = None"
    by (simp add: fresh_world_def)
  have e: "fs_log w' =
          [Open ''/d/google_sk_0'', Write ''/d/google_sk_0'' ''AAA'',
           Chmod ''/d/google_sk_0'' 384, Close ''/d/google_sk_0'',
           Open ''/d/google_sk_1'', Write ''/d/google_sk_1'' ''BBB'',
           Chmod ''/d/google_sk_1'' 384, Close ''/d/google_sk_1'']"
    using l p0 p1 by (simp add: key_ops_def fresh_world_def enumerate_eq_zip upt_rec)
  from a b c d e show ?thesis by blast
qed

text \<open>
  Claim C4. For the empty entry sequence and any directory, \<open>write_ssh_key_files\<close> returns
  the empty list of paths and leaves the world as it was: no file is created, and no
  file operation is logged.
\<close>

theorem write_ssh_key_files_empty:
  "write_ssh_key_files w (Some []) directory = (Inr [], w)"
  by (simp add: write_ssh_key_files_def)

text \<open>
  What the file of an entry holds, for a run that returns and for any run that gets as
  far as opening the file.
\<close>

lemma with_open_contents:
  assumes "path \<notin> open_denied w" "key ''privateKey'' = Some s"
  shows "map_option contents (files (snd (with_open w path key kf)) path) = Some s"
  using assms
  by (auto simp: with_open_def py_open_def py_write_def os_chmod_def py_close_def
      split: option.splits)

lemma returned_key_files_hold_keys:
  assumes "write_ssh_key_files w (Some keys) directory = (Inr key_files, w')"
    and "i < length keys"
  shows "length key_files = length keys"
    and "key_files ! i = key_file_at directory i"
    and "(keys ! i) ''privateKey'' \<noteq> None"
    and "map_option contents (files w' (key_files ! i)) = (keys ! i) ''privateKey''"
proof -
  from assms(1) have r: "write_loop w directory 0 keys [] = (Inr key_files, w')"
    by (simp add: write_ssh_key_files_def)
  then have "fst (write_loop w directory 0 keys []) = Inr key_files" by simp
  from write_loop_Inr [OF this] obtain pks where
    pks: "map (\<lambda>k. k ''privateKey'') keys = map Some pks"
    and ok: "\<forall>j<length keys. key_file_at directory (0 + j) \<notin> open_denied w
        \<and> key_file_at directory (0 + j) \<notin> chmod_denied w"
    by blast
  from write_loop_ok [of keys pks directory 0 w "[]"] pks ok r
  have kf: "key_files = map (key_file_at directory) [0..<length keys]"
    and f: "\<forall>j<length keys. files w' (key_file_at directory j) = Some \<lparr>contents = pks ! j, mode = 384\<rparr>"
    by auto
  from pks have "length pks = length keys"
    using length_map by metis
  with pks assms(2) have ki: "(keys ! i) ''privateKey'' = Some (pks ! i)"
    using nth_map [of i keys "\<lambda>k. k ''privateKey''"] nth_map [of i pks Some] by simp
  from kf assms(2) have ki2: "key_files ! i = key_file_at directory i" by simp
  from kf show "length key_files = length keys" by simp
  from ki2 show "key_files ! i = key_file_at directory i" .
  from ki show "(keys ! i) ''privateKey'' \<noteq> None" by simp
  from f assms(2) ki ki2 show "map_option contents (files w' (key_files ! i)) = (keys ! i) ''privateKey''"
    by simp
qed

lemma opened_key_file_holds_key:
  assumes "i < length keys"
    and "fst (write_ssh_key_files w (Some (take i keys)) directory) = Inr paths"
    and "key_file_at directory i \<notin> open_denied w"
    and "(keys ! i) ''privateKey'' = Some s"
  shows "map_option contents
           (files (snd (write_ssh_key_files w (Some keys) directory)) (key_file_at directory i))
         = Some s"
proof -
  let ?pre = "take i keys" and ?key = "keys ! i" and ?post = "drop (Suc i) keys"
  let ?p = "key_file_at directory i"
  have split: "keys = ?pre @ ?key # ?post"
    using assms(1) by (rule id_take_nth_drop)
  have len: "length ?pre = i" using assms(1) by simp
  obtain w1 where r1: "write_loop w directory 0 ?pre [] = (Inr paths, w1)"
    using assms(2) by (cases "write_loop w directory 0 ?pre []") (simp add: write_ssh_key_files_def)
  have fr1: "w1\<lparr>files := files w, fs_log := fs_log w\<rparr> = w"
    using write_loop_frame [of w directory 0 ?pre "[]"] r1 by simp
  have od: "?p \<notin> open_denied w1"
    using assms(3) frame_fields(1) [OF fr1] by simp
  obtain r w2 where step: "with_open w1 ?p ?key paths = (r, w2)"
    by (cases "with_open w1 ?p ?key paths")
  have c2: "map_option contents (files w2 ?p) = Some s"
    using with_open_contents [of ?p w1 ?key s paths] od assms(4) step by simp
  have run: "write_ssh_key_files w (Some keys) directory =
      (case r of Inl e \<Rightarrow> (Inl e, w2)
       | Inr paths1 \<Rightarrow> write_loop w2 directory (Suc i) ?post paths1)"
  proof -
    have "write_loop w directory 0 (?pre @ ?key # ?post) [] =
      (case r of Inl e \<Rightarrow> (Inl e, w2)
       | Inr paths1 \<Rightarrow> write_loop w2 directory (Suc i) ?post paths1)"
      using r1 step len by (simp add: write_loop_append)
    with split show ?thesis by (simp add: write_ssh_key_files_def)
  qed
  show ?thesis
  proof (cases r)
    case (Inl e)
    with run c2 show ?thesis by simp
  next
    case (Inr paths1)
    have "files (snd (write_loop w2 directory (Suc i) ?post paths1)) ?p = files w2 ?p"
      by (rule write_loop_other) simp
    with run Inr c2 show ?thesis by simp
  qed
qed

text \<open>
  Claim C6. Round trip, for every entry sequence and every index \<open>i\<close> of it. After a run
  of \<open>write_ssh_key_files\<close> that returns, there is one path for each entry, the \<open>i\<close>-th
  path is the one computed for index \<open>i\<close>, and the contents of the file there are the
  \<open>i\<close>-th entry's private-key string, character for character. The same holds for the
  file of entry \<open>i\<close> after any run in which that file is created, that is, in which the
  entries before \<open>i\<close> are written and the file for entry \<open>i\<close> is opened: whether the run
  then returns or fails later, the file ends up holding exactly the entry's private key.
\<close>

theorem key_file_contents_roundtrip:
  assumes "i < length keys"
  shows "(\<forall>key_files w'.
            write_ssh_key_files w (Some keys) directory = (Inr key_files, w') \<longrightarrow>
              length key_files = length keys
              \<and> key_files ! i = key_file_at directory i
              \<and> (keys ! i) ''privateKey'' \<noteq> None
              \<and> map_option contents (files w' (key_files ! i)) = (keys ! i) ''privateKey'')
      \<and> (\<forall>paths s.
            fst (write_ssh_key_files w (Some (take i keys)) directory) = Inr paths
            \<and> key_file_at directory i \<notin> open_denied w
            \<and> (keys ! i) ''privateKey'' = Some s \<longrightarrow>
              map_option contents
                (files (snd (write_ssh_key_files w (Some keys) directory)) (key_file_at directory i))
              = Some s)"
proof (intro conjI allI impI)
  fix key_files w'
  assume r: "write_ssh_key_files w (Some keys) directory = (Inr key_files, w')"
  from returned_key_files_hold_keys [OF r assms]
  show "length key_files = length keys"
    and "key_files ! i = key_file_at directory i"
    and "(keys ! i) ''privateKey'' \<noteq> None"
    and "map_option contents (files w' (key_files ! i)) = (keys ! i) ''privateKey''"
    by simp_all
next
  fix paths s
  assume "fst (write_ssh_key_files w (Some (take i keys)) directory) = Inr paths
            \<and> key_file_at directory i \<notin> open_denied w
            \<and> (keys ! i) ''privateKey'' = Some s"
  then show "map_option contents
                (files (snd (write_ssh_key_files w (Some keys) directory)) (key_file_at directory i))
              = Some s"
    using opened_key_file_holds_key [OF assms, of w directory paths s] by simp
qed

theorem key_file_contents_roundtrip_witness:
  "fst (write_ssh_key_files fresh_world (Some [key_entry ''AAA'', key_entry ''BBB'']) ''/d'')
     = Inr [''/d/google_sk_0'', ''/d/google_sk_1'']
   \<and> map_option contents
         (files (snd (write_ssh_key_files fresh_world
            (Some [key_entry ''AAA'', key_entry ''BBB'']) ''/d''))
          ''/d/google_sk_1'')
     = Some ''BBB''
   \<and> fst (write_ssh_key_files (fresh_world\<lparr>chmod_denied := {''/d/google_sk_1''}\<rparr>)
            (Some [key_entry ''AAA'', key_entry ''BBB'']) ''/d'')
     = Inl OSError
   \<and> map_option contents
         (files (snd (write_ssh_key_files (fresh_world\<lparr>chmod_denied := {''/d/google_sk_1''}\<rparr>)
            (Some [key_entry ''AAA'', key_entry ''BBB'']) ''/d''))
          ''/d/google_sk_1'')
     = Some ''BBB''"
proof -
  let ?keys = "[key_entry ''AAA'', key_entry ''BBB'']"
  let ?w = "fresh_world\<lparr>chmod_denied := {''/d/google_sk_1''}\<rparr>"
  let ?run = "write_ssh_key_files fresh_world (Some ?keys) ''/d''"
  have p1: "key_file_at ''/d'' 1 = ''/d/google_sk_1''" by (simp add: eval_defs)
  have i: "(1::nat) < length ?keys" by simp
  note both = key_file_contents_roundtrip [OF i]
  have a: "fst ?run = Inr [''/d/google_sk_0'', ''/d/google_sk_1'']"
    by (simp add: run_defs eval_defs)
  then have h: "?run = (Inr [''/d/google_sk_0'', ''/d/google_sk_1''], snd ?run)"
    by (metis prod.collapse)
  from both [of fresh_world "''/d''", THEN conjunct1, rule_format, OF h]
  have "map_option contents (files (snd ?run) ([''/d/google_sk_0'', ''/d/google_sk_1''] ! 1))
      = (?keys ! 1) ''privateKey''"
    by blast
  then have b: "map_option contents (files (snd ?run) ''/d/google_sk_1'') = Some ''BBB''"
    by simp
  have c: "fst (write_ssh_key_files ?w (Some ?keys) ''/d'') = Inl OSError"
    by (simp add: run_defs eval_defs)
  have g: "fst (write_ssh_key_files ?w (Some (take 1 ?keys)) ''/d'') = Inr [''/d/google_sk_0'']
            \<and> key_file_at ''/d'' 1 \<notin> open_denied ?w
            \<and> (?keys ! 1) ''privateKey'' = Some ''BBB''"
    by (simp add: run_defs eval_defs)
  from both [of ?w "''/d''", THEN conjunct2, rule_format, OF g]
  have d: "map_option contents
         (files (snd (write_ssh_key_files ?w (Some ?keys) ''/d'')) ''/d/google_sk_1'') = Some ''BBB''"
    using p1 by simp
  from a b c d show ?thesis by blast
qed

text \<open>
  Claim C7. After a first run with some directory has returned, a second run with the
  same directory and entries that each carry a private key returns as well (where it
  has more entries than the first run, the additional files must be writable): the
  files the first run left at \<open>google_sk_i\<close> exist and are overwritten, each file then
  holds the second run's \<open>i\<close>-th private key, and nothing is printed.
\<close>

theorem second_run_overwrites:
  assumes "write_ssh_key_files w (Some keys1) directory = (Inr key_files1, w1)"
    and "map (\<lambda>key. key ''privateKey'') keys2 = map Some pks2"
    and "\<forall>i. length keys1 \<le> i \<and> i < length keys2 \<longrightarrow>
           key_file_at directory i \<notin> open_denied w \<and> key_file_at directory i \<notin> chmod_denied w"
  shows "\<exists>w2. write_ssh_key_files w1 (Some keys2) directory
             = (Inr (map (key_file_at directory) [0..<length keys2]), w2)
      \<and> (\<forall>i<length keys2. i < length keys1 \<longrightarrow> files w1 (key_file_at directory i) \<noteq> None)
      \<and> (\<forall>i<length keys2. files w2 (key_file_at directory i)
             = Some \<lparr>contents = pks2 ! i, mode = 384\<rparr>)
      \<and> stdout w2 = stdout w1"
proof -
  from assms(1) have r1: "write_loop w directory 0 keys1 [] = (Inr key_files1, w1)"
    by (simp add: write_ssh_key_files_def)
  then have "fst (write_loop w directory 0 keys1 []) = Inr key_files1" by simp
  from write_loop_Inr [OF this] obtain pks1 where
    pks1: "map (\<lambda>k. k ''privateKey'') keys1 = map Some pks1"
    and ok1: "\<forall>j<length keys1. key_file_at directory (0 + j) \<notin> open_denied w
        \<and> key_file_at directory (0 + j) \<notin> chmod_denied w"
    by blast
  from write_loop_ok [of keys1 pks1 directory 0 w "[]"] pks1 ok1 r1
  have f1: "\<forall>j<length keys1. files w1 (key_file_at directory j) = Some \<lparr>contents = pks1 ! j, mode = 384\<rparr>"
    by auto
  have fr1: "w1\<lparr>files := files w, fs_log := fs_log w\<rparr> = w"
    using write_loop_frame [of w directory 0 keys1 "[]"] r1 by simp
  note env = frame_fields [OF fr1]
  have ok2: "\<And>j. j < length keys2 \<Longrightarrow> key_file_at directory (0 + j) \<notin> open_denied w1
      \<and> key_file_at directory (0 + j) \<notin> chmod_denied w1"
  proof -
    fix j assume "j < length keys2"
    then show "key_file_at directory (0 + j) \<notin> open_denied w1
      \<and> key_file_at directory (0 + j) \<notin> chmod_denied w1"
      using ok1 assms(3) env(1,2) by (cases "j < length keys1") simp_all
  qed
  from write_loop_ok [of keys2 pks2 directory 0 w1 "[]"] assms(2) ok2
  obtain w2 where r2: "write_loop w1 directory 0 keys2 [] = (Inr (map (key_file_at directory) [0..<length keys2]), w2)"
    and f2: "\<forall>i<length keys2. files w2 (key_file_at directory i) = Some \<lparr>contents = pks2 ! i, mode = 384\<rparr>"
    by auto
  have fr2: "w2\<lparr>files := files w1, fs_log := fs_log w1\<rparr> = w1"
    using write_loop_frame [of w1 directory 0 keys2 "[]"] r2 by simp
  from r2 f1 f2 frame_fields(3) [OF fr2] show ?thesis
    by (simp add: write_ssh_key_files_def)
qed

theorem second_run_overwrites_witness:
  "\<exists>w2. write_ssh_key_files
          (snd (write_ssh_key_files fresh_world
             (Some [key_entry ''AAA'', key_entry ''BBB'']) ''/d''))
          (Some [key_entry ''XXX'', key_entry ''YYY'', key_entry ''ZZZ''])
          ''/d''
        = (Inr [''/d/google_sk_0'', ''/d/google_sk_1'', ''/d/google_sk_2''], w2)
     \<and> files (snd (write_ssh_key_files fresh_world
             (Some [key_entry ''AAA'', key_entry ''BBB'']) ''/d''))
          ''/d/google_sk_0'' = Some \<lparr>contents = ''AAA'', mode = 384\<rparr>
     \<and> files w2 ''/d/google_sk_0'' = Some \<lparr>contents = ''XXX'', mode = 384\<rparr>
     \<and> files w2 ''/d/google_sk_1'' = Some \<lparr>contents = ''YYY'', mode = 384\<rparr>
     \<and> files w2 ''/d/google_sk_2'' = Some \<lparr>contents = ''ZZZ'', mode = 384\<rparr>
     \<and> stdout w2 = []"
proof -
  let ?keys1 = "[key_entry ''AAA'', key_entry ''BBB'']"
  let ?keys2 = "[key_entry ''XXX'', key_entry ''YYY'', key_entry ''ZZZ'']"
  let ?run = "write_ssh_key_files fresh_world (Some ?keys1) ''/d''"
  have p0: "key_file_at ''/d'' 0 = ''/d/google_sk_0''" by (simp add: eval_defs)
  have p1: "key_file_at ''/d'' 1 = ''/d/google_sk_1''" by (simp add: eval_defs)
  have p2: "key_file_at ''/d'' 2 = ''/d/google_sk_2''" by (simp add: eval_defs)
  have "fst ?run = Inr [''/d/google_sk_0'', ''/d/google_sk_1'']"
    by (simp add: run_defs eval_defs)
  then have h1: "?run = (Inr [''/d/google_sk_0'', ''/d/google_sk_1''], snd ?run)"
    by (metis prod.collapse)
  have h2: "map (\<lambda>key. key ''privateKey'') ?keys2 = map Some [''XXX'', ''YYY'', ''ZZZ'']"
    by simp
  have h3: "\<forall>i. length ?keys1 \<le> i \<and> i < length ?keys2 \<longrightarrow>
           key_file_at ''/d'' i \<notin> open_denied fresh_world
           \<and> key_file_at ''/d'' i \<notin> chmod_denied fresh_world"
    by (simp add: fresh_world_def)
  have before: "files (snd ?run) ''/d/google_sk_0'' = Some \<lparr>contents = ''AAA'', mode = 384\<rparr>"
    by (simp add: run_defs eval_defs)
  have out: "stdout (snd ?run) = []"
    by (simp add: run_defs eval_defs)
  from second_run_overwrites [OF h1 h2 h3]
  obtain w2 where r: "write_ssh_key_files (snd ?run) (Some ?keys2) ''/d''
        = (Inr (map (key_file_at ''/d'') [0..<length ?keys2]), w2)"
    and f: "\<forall>i<length ?keys2. files w2 (key_file_at ''/d'' i)
             = Some \<lparr>contents = [''XXX'', ''YYY'', ''ZZZ''] ! i, mode = 384\<rparr>"
    and s: "stdout w2 = stdout (snd ?run)"
    by blast
  have a: "write_ssh_key_files (snd ?run) (Some ?keys2) ''/d''
        = (Inr [''/d/google_sk_0'', ''/d/google_sk_1'', ''/d/google_sk_2''], w2)"
    using r p0 p1 p2 by (simp add: upt_rec numeral_2_eq_2)
  have b: "files w2 ''/d/google_sk_0'' = Some \<lparr>contents = ''XXX'', mode = 384\<rparr>"
    using f [rule_format, of 0] p0 by simp
  have c: "files w2 ''/d/google_sk_1'' = Some \<lparr>contents = ''YYY'', mode = 384\<rparr>"
    using f [rule_format, of 1] p1 by simp
  have d: "files w2 ''/d/google_sk_2'' = Some \<lparr>contents = ''ZZZ'', mode = 384\<rparr>"
    using f [rule_format, of 2] p2 by simp
  from a before b c d s out show ?thesis by simp
qed

text \<open>
  Claim C8. When the entries before index \<open>k\<close> are written and the iteration for entry
  \<open>k\<close> fails (the file cannot be opened, the entry has no private key, or the mode cannot
  be changed), \<open>write_ssh_key_files\<close> ends with that error, raised to its caller. The
  files of the entries \<open>0\<close> to \<open>k - 1\<close> are still there with their contents and mode
  \<open>0o600\<close>: nothing is rolled back. The files of the entries after \<open>k\<close> are never touched.
\<close>

theorem failed_write_keeps_earlier_files:
  assumes "k < length keys"
    and "map (\<lambda>key. key ''privateKey'') (take k keys) = map Some pks"
    and "\<forall>i<k. key_file_at directory i \<notin> open_denied w \<and> key_file_at directory i \<notin> chmod_denied w"
    and "key_file_at directory k \<in> open_denied w \<or> (keys ! k) ''privateKey'' = None
           \<or> key_file_at directory k \<in> chmod_denied w"
  shows "\<exists>w'. write_ssh_key_files w (Some keys) directory
             = (Inl (if key_file_at directory k \<in> open_denied w then OSError
                     else if (keys ! k) ''privateKey'' = None then TypeError else OSError), w')
      \<and> (\<forall>i<k. files w' (key_file_at directory i) = Some \<lparr>contents = pks ! i, mode = 384\<rparr>)
      \<and> (\<forall>i>k. files w' (key_file_at directory i) = files w (key_file_at directory i))"
proof -
  let ?pre = "take k keys" and ?key = "keys ! k" and ?post = "drop (Suc k) keys"
  let ?p = "key_file_at directory k"
  let ?e = "if ?p \<in> open_denied w then OSError
            else if ?key ''privateKey'' = None then TypeError else OSError"
  have split: "keys = ?pre @ ?key # ?post"
    using assms(1) by (rule id_take_nth_drop)
  have len: "length ?pre = k" using assms(1) by simp
  from write_loop_ok [of ?pre pks directory 0 w "[]"] assms(2,3) len
  obtain w1 where r1: "write_loop w directory 0 ?pre [] = (Inr (map (key_file_at directory) [0..<k]), w1)"
    and f1: "\<forall>i<k. files w1 (key_file_at directory i) = Some \<lparr>contents = pks ! i, mode = 384\<rparr>"
    by auto
  have fr1: "w1\<lparr>files := files w, fs_log := fs_log w\<rparr> = w"
    using write_loop_frame [of w directory 0 ?pre "[]"] r1 by simp
  note env = frame_fields [OF fr1]
  let ?kf = "map (key_file_at directory) [0..<k]"
  obtain r w' where step: "with_open w1 ?p ?key ?kf = (r, w')"
    by (cases "with_open w1 ?p ?key ?kf")
  have "fst (with_open w1 ?p ?key ?kf) = Inl ?e"
    using with_open_fail [of ?p w1 ?key ?kf] assms(4) env(1,2) by simp
  with step have r: "r = Inl ?e" by simp
  have other: "\<And>q. q \<noteq> ?p \<Longrightarrow> files w' q = files w1 q"
    using with_open_other [of _ ?p w1 ?key ?kf] step by simp
  have "write_loop w directory 0 (?pre @ ?key # ?post) [] = (Inl ?e, w')"
    using r1 step r len by (simp add: write_loop_append)
  with split have res: "write_ssh_key_files w (Some keys) directory = (Inl ?e, w')"
    by (simp add: write_ssh_key_files_def)
  have before: "\<forall>i<k. files w' (key_file_at directory i) = Some \<lparr>contents = pks ! i, mode = 384\<rparr>"
    using f1 other by simp
  have after: "\<forall>i>k. files w' (key_file_at directory i) = files w (key_file_at directory i)"
  proof (intro allI impI)
    fix i assume i: "k < i"
    then have "files w' (key_file_at directory i) = files w1 (key_file_at directory i)"
      using other by simp
    also have "\<dots> = files w (key_file_at directory i)"
      using write_loop_other [of ?pre "key_file_at directory i" directory 0 w "[]"] r1 i len by simp
    finally show "files w' (key_file_at directory i) = files w (key_file_at directory i)" .
  qed
  from res before after show ?thesis by blast
qed

theorem failed_write_keeps_earlier_files_witness:
  "\<exists>w'. write_ssh_key_files (fresh_world\<lparr>open_denied := {''/d/google_sk_1''}\<rparr>)
          (Some [key_entry ''AAA'', key_entry ''BBB'', key_entry ''CCC''])
          ''/d''
        = (Inl OSError, w')
     \<and> files w' ''/d/google_sk_0'' = Some \<lparr>contents = ''AAA'', mode = 384\<rparr>
     \<and> files w' ''/d/google_sk_2'' = None"
proof -
  let ?w = "fresh_world\<lparr>open_denied := {''/d/google_sk_1''}\<rparr>"
  let ?keys = "[key_entry ''AAA'', key_entry ''BBB'', key_entry ''CCC'']"
  have p0: "key_file_at ''/d'' 0 = ''/d/google_sk_0''" by (simp add: eval_defs)
  have p1: "key_file_at ''/d'' 1 = ''/d/google_sk_1''" by (simp add: eval_defs)
  have p2: "key_file_at ''/d'' 2 = ''/d/google_sk_2''" by (simp add: eval_defs)
  have h1: "(1::nat) < length ?keys" by simp
  have h2: "map (\<lambda>key. key ''privateKey'') (take 1 ?keys) = map Some [''AAA'']" by simp
  have h3: "\<forall>i<1. key_file_at ''/d'' i \<notin> open_denied ?w \<and> key_file_at ''/d'' i \<notin> chmod_denied ?w"
    using p0 by (simp add: fresh_world_def)
  have h4: "key_file_at ''/d'' 1 \<in> open_denied ?w \<or> (?keys ! 1) ''privateKey'' = None
           \<or> key_file_at ''/d'' 1 \<in> chmod_denied ?w"
    using p1 by simp
  from failed_write_keeps_earlier_files [OF h1 h2 h3 h4]
  obtain w' where r: "write_ssh_key_files ?w (Some ?keys) ''/d''
             = (Inl (if key_file_at ''/d'' 1 \<in> open_denied ?w then OSError
                     else if (?keys ! 1) ''privateKey'' = None then TypeError else OSError), w')"
    and f: "\<forall>i<1. files w' (key_file_at ''/d'' i) = Some \<lparr>contents = [''AAA''] ! i, mode = 384\<rparr>"
    and g: "\<forall>i>1. files w' (key_file_at ''/d'' i) = files ?w (key_file_at ''/d'' i)"
    by blast
  have a: "write_ssh_key_files ?w (Some ?keys) ''/d'' = (Inl OSError, w')"
    using r p1 by simp
  have b: "files w' ''/d/google_sk_0'' = Some \<lparr>contents = ''AAA'', mode = 384\<rparr>"
    using f [rule_format, of 0] p0 by simp
  have c: "files w' ''/d/google_sk_2'' = None"
    using g [rule_format, of 2] p2 by (simp add: fresh_world_def)
  from a b c show ?thesis by blast
qed

subsection \<open>The command formatter\<close>

lemma join_space_concat:
  "xs \<noteq> [] \<Longrightarrow> join sep xs @ sep = concat (map (\<lambda>x. x @ sep) xs)"
  by (induction sep xs rule: join.induct) simp_all

text \<open>
  Claim C2. For the key files \<open>/a\<close> and \<open>/b\<close>, username \<open>alice\<close> and host \<open>1.2.3.4\<close> the
  formatter prints exactly \<open>ssh -i /a -i /b alice@1.2.3.4\<close>. In general, for one or more
  key files, the printed line is \<open>ssh\<close> and a space, then for each path in order \<open>-i\<close>, a
  space, the path as it is and a space, then the username as it is, \<open>@\<close> and the host:
  nothing is quoted or escaped.
\<close>

theorem ssh_command_prints_identity_flags:
  "ssh_command w [''/a'', ''/b''] (Some ''alice'') (Some ''1.2.3.4'')
     = w\<lparr>stdout := stdout w @ [''ssh -i /a -i /b alice@1.2.3.4'']\<rparr>
   \<and> ssh_command w (f # fs) (Some username) (Some ip_address)
     = w\<lparr>stdout := stdout w @
         [''ssh '' @ concat (map (\<lambda>f. ''-i '' @ f @ '' '') (f # fs)) @ username @ ''@'' @ ip_address]\<rparr>"
proof -
  have "join '' '' (map (\<lambda>f. ''-i '' @ f) (f # fs)) @ '' ''
      = concat (map (\<lambda>x. x @ '' '') (map (\<lambda>f. ''-i '' @ f) (f # fs)))"
    by (rule join_space_concat) simp
  also have "\<dots> = concat (map (\<lambda>f. ''-i '' @ f @ '' '') (f # fs))"
    by (simp add: comp_def)
  finally have "join '' '' (map (\<lambda>f. ''-i '' @ f) (f # fs)) @ '' '' @ username @ ''@'' @ ip_address
      = concat (map (\<lambda>f. ''-i '' @ f @ '' '') (f # fs)) @ username @ ''@'' @ ip_address"
    by (metis append_assoc)
  then show ?thesis
    by (simp add: ssh_command_def)
qed

text \<open>
  Claim C10. With no key files, username \<open>bob\<close> and host \<open>5.6.7.8\<close>, the formatter
  prints exactly \<open>ssh  bob@5.6.7.8\<close>: joining the empty list gives the empty string, and
  the two spaces around it both remain.
\<close>

theorem ssh_command_no_key_files:
  "ssh_command w [] (Some ''bob'') (Some ''5.6.7.8'')
     = w\<lparr>stdout := stdout w @ [''ssh  bob@5.6.7.8'']\<rparr>"
  by (simp add: ssh_command_def)

subsection \<open>The program\<close>

text \<open>
  Claim C3. When the fetched profile has one or more POSIX accounts, a run of \<open>main\<close>
  that succeeds prints one line, the \<open>ssh\<close> command with the \<open>username\<close> field of the first
  account before the \<open>@\<close>; a run that fails prints nothing. The accounts after the first
  have no effect: with any other accounts in their place, \<open>main\<close> gives the same result
  and leaves the same world (but for the service's answer itself).
\<close>

theorem main_uses_first_posix_account:
  assumes "discovery_build w = None"
    and "getLoginProfile w (''users/'' @ py_str user_key) = Inr profile"
    and "posixAccounts profile = Some (account # others)"
  shows "(\<forall>w'. main w user_key ip_address directory = (Inr (), w') \<longrightarrow>
           (\<exists>key_files. stdout w' = stdout w @
              [''ssh '' @ join '' '' (map (\<lambda>f. ''-i '' @ f) key_files) @ '' ''
                 @ py_str (account ''username'') @ ''@'' @ py_str ip_address]))
      \<and> (\<forall>e w'. main w user_key ip_address directory = (Inl e, w') \<longrightarrow> stdout w' = stdout w)
      \<and> main (w\<lparr>getLoginProfile := (getLoginProfile w)
                  (''users/'' @ py_str user_key :=
                     Inr (profile\<lparr>posixAccounts := Some (account # others')\<rparr>))\<rparr>)
             user_key ip_address directory
          = (fst (main w user_key ip_address directory),
             snd (main w user_key ip_address directory)
               \<lparr>getLoginProfile := (getLoginProfile w)
                  (''users/'' @ py_str user_key :=
                     Inr (profile\<lparr>posixAccounts := Some (account # others')\<rparr>))\<rparr>)"
proof -
  let ?d = "case directory of None \<Rightarrow> path_join (home w) ''.ssh''
            | Some d \<Rightarrow> if d = [] then path_join (home w) ''.ssh'' else d"
  obtain r w1 where wr: "write_ssh_key_files w (securityKeys profile) ?d = (r, w1)"
    by (cases "write_ssh_key_files w (securityKeys profile) ?d")
  have "w1\<lparr>files := files w, fs_log := fs_log w\<rparr> = w"
    using write_ssh_key_files_frame [of w "securityKeys profile" ?d] wr by simp
  then have out: "stdout w1 = stdout w" by (rule frame_fields)
  have m: "main w user_key ip_address directory =
      (case r of Inl e \<Rightarrow> (Inl e, w1)
       | Inr key_files \<Rightarrow> (Inr (), ssh_command w1 key_files (account ''username'') ip_address))"
    using assms wr by (simp add: main_def split: sum.splits)
  have a: "\<forall>w'. main w user_key ip_address directory = (Inr (), w') \<longrightarrow>
           (\<exists>key_files. stdout w' = stdout w @
              [''ssh '' @ join '' '' (map (\<lambda>f. ''-i '' @ f) key_files) @ '' ''
                 @ py_str (account ''username'') @ ''@'' @ py_str ip_address])"
    using m out by (cases r) (auto simp: ssh_command_def)
  have b: "\<forall>e w'. main w user_key ip_address directory = (Inl e, w') \<longrightarrow> stdout w' = stdout w"
    using m out by (cases r) auto
  let ?g = "(getLoginProfile w)
                  (''users/'' @ py_str user_key :=
                     Inr (profile\<lparr>posixAccounts := Some (account # others')\<rparr>))"
  have c: "main (w\<lparr>getLoginProfile := ?g\<rparr>) user_key ip_address directory
      = (fst (main w user_key ip_address directory),
         snd (main w user_key ip_address directory)\<lparr>getLoginProfile := ?g\<rparr>)"
    using assms
    by (simp add: main_def Let_def write_ssh_key_files_service ssh_command_def
          split: option.splits sum.splits prod.splits)
  from a b c show ?thesis by blast
qed

theorem main_uses_first_posix_account_witness:
  "main (serving \<lparr>securityKeys = Some [key_entry ''AAA''],
                  posixAccounts = Some [posix_account ''alice'', posix_account ''bob'']\<rparr>)
       (Some ''alice@example.com'') (Some ''1.2.3.4'') (Some ''/d'')
   = (Inr (),
      snd (main (serving \<lparr>securityKeys = Some [key_entry ''AAA''],
                  posixAccounts = Some [posix_account ''alice'', posix_account ''bob'']\<rparr>)
       (Some ''alice@example.com'') (Some ''1.2.3.4'') (Some ''/d'')))
   \<and> (\<exists>key_files.
        stdout (snd (main (serving \<lparr>securityKeys = Some [key_entry ''AAA''],
                  posixAccounts = Some [posix_account ''alice'', posix_account ''bob'']\<rparr>)
                 (Some ''alice@example.com'') (Some ''1.2.3.4'') (Some ''/d'')))
      = [''ssh '' @ join '' '' (map (\<lambda>f. ''-i '' @ f) key_files) @ '' alice@1.2.3.4''])"
proof -
  let ?p = "\<lparr>securityKeys = Some [key_entry ''AAA''],
                  posixAccounts = Some [posix_account ''alice'', posix_account ''bob'']\<rparr>"
  let ?run = "main (serving ?p) (Some ''alice@example.com'') (Some ''1.2.3.4'') (Some ''/d'')"
  have h1: "discovery_build (serving ?p) = None"
    by (simp add: serving_def fresh_world_def)
  have h2: "getLoginProfile (serving ?p) (''users/'' @ py_str (Some ''alice@example.com'')) = Inr ?p"
    by (simp add: serving_def)
  have h3: "posixAccounts ?p = Some (posix_account ''alice'' # [posix_account ''bob''])"
    by simp
  have "fst ?run = Inr ()"
    by (simp add: main_def serving_def run_defs eval_defs)
  then have ok: "?run = (Inr (), snd ?run)"
    by (metis prod.collapse)
  have out: "stdout (serving ?p) = []"
    by (simp add: serving_def fresh_world_def)
  from main_uses_first_posix_account [OF h1 h2 h3, of "Some ''1.2.3.4''" "Some ''/d''"]
  have "\<forall>w'. ?run = (Inr (), w') \<longrightarrow>
           (\<exists>key_files. stdout w' = stdout (serving ?p) @
              [''ssh '' @ join '' '' (map (\<lambda>f. ''-i '' @ f) key_files) @ '' ''
                 @ py_str (posix_account ''alice'' ''username'') @ ''@'' @ py_str (Some ''1.2.3.4'')])"
    by blast
  with ok out have "\<exists>key_files. stdout (snd ?run)
      = [''ssh '' @ join '' '' (map (\<lambda>f. ''-i '' @ f) key_files) @ '' alice@1.2.3.4'']"
    by simp
  with ok show ?thesis by blast
qed

text \<open>
  Claim C5. When the fetched profile has no \<open>securityKeys\<close> field, \<open>main\<close> passes \<open>None\<close>
  to \<open>write_ssh_key_files\<close>, which raises \<open>TypeError\<close> on enumerating it and changes nothing.
  So \<open>main\<close> ends with an error and the world as it was: no file is written and no \<open>ssh\<close>
  command is printed. (The error is this \<open>TypeError\<close> when the profile has a POSIX
  account; without one, indexing the accounts has raised before.)
\<close>

theorem main_without_security_keys_fails:
  assumes "discovery_build w = None"
    and "getLoginProfile w (''users/'' @ py_str user_key) = Inr profile"
    and "securityKeys profile = None"
  shows "write_ssh_key_files w (securityKeys profile) d = (Inl TypeError, w)
      \<and> main w user_key ip_address directory
          = (Inl (case posixAccounts profile of Some [] \<Rightarrow> IndexError | _ \<Rightarrow> TypeError), w)"
  using assms
  by (simp add: main_def write_ssh_key_files_def split: option.splits list.splits)

theorem main_without_security_keys_fails_witness:
  "main (serving \<lparr>securityKeys = None, posixAccounts = Some [posix_account ''alice_example_com'']\<rparr>)
       (Some ''alice@example.com'') (Some ''1.2.3.4'') (Some ''/d'')
     = (Inl TypeError,
        serving \<lparr>securityKeys = None, posixAccounts = Some [posix_account ''alice_example_com'']\<rparr>)"
proof -
  let ?p = "\<lparr>securityKeys = None, posixAccounts = Some [posix_account ''alice_example_com'']\<rparr>"
  have h1: "discovery_build (serving ?p) = None"
    by (simp add: serving_def fresh_world_def)
  have h2: "getLoginProfile (serving ?p) (''users/'' @ py_str (Some ''alice@example.com'')) = Inr ?p"
    by (simp add: serving_def)
  have h3: "securityKeys ?p = None" by simp
  from main_without_security_keys_fails [OF h1 h2 h3, of "''/d''" "Some ''1.2.3.4''" "Some ''/d''"]
  show ?thesis by simp
qed

text \<open>
  Claim C9. When the profile lookup fails with an error \<open>e\<close>, in building the client or
  in executing the request, \<open>main\<close> ends with exactly \<open>e\<close> and the world as it was: no key
  file is written and nothing is printed.
\<close>

theorem main_lookup_error_propagates:
  assumes "discovery_build w = Some e
         \<or> discovery_build w = None \<and> getLoginProfile w (''users/'' @ py_str user_key) = Inl e"
  shows "main w user_key ip_address directory = (Inl e, w)"
  using assms by (auto simp: main_def)

theorem main_lookup_error_propagates_witness:
  "main fresh_world (Some ''alice@example.com'') (Some ''1.2.3.4'') None
     = (Inl NotFoundError, fresh_world)"
proof -
  have "discovery_build fresh_world = Some NotFoundError
      \<or> discovery_build fresh_world = None
        \<and> getLoginProfile fresh_world (''users/'' @ py_str (Some ''alice@example.com'')) = Inl NotFoundError"
    by (simp add: fresh_world_def)
  then show ?thesis by (rule main_lookup_error_propagates)
qed

end
